theory Spec2Isabelle
  imports Complex_Main "HOL-Library.Char_ord" "HOL-Library.List_Lexorder"
begin

section \<open>Data model\<close>

text \<open>
  The arrays of the source hold three numbers per row, in (z, y, x) order. A row is a
  triple here, and \<open>A0\<close>, \<open>A1\<close>, \<open>A2\<close> name its axes. float64 values are modelled as
  reals: rounding error and overflow of the machine formats are not modelled, and a float
  operation whose IEEE result is not a number of the real line (division by zero) is
  written out as a missing value (\<open>None\<close>) or as the error \<open>NonFinite\<close>.
\<close>

type_synonym 'a vec3 = "'a \<times> 'a \<times> 'a"

datatype axis = A0 | A1 | A2

fun comp3 :: "'a vec3 \<Rightarrow> axis \<Rightarrow> 'a" where
  "comp3 (a, b, c) A0 = a"
| "comp3 (a, b, c) A1 = b"
| "comp3 (a, b, c) A2 = c"

fun vec_of :: "(axis \<Rightarrow> 'a) \<Rightarrow> 'a vec3" where
  "vec_of f = (f A0, f A1, f A2)"

datatype error =
    AttributeError
  | IndexError
  | ValueError
  | NameError string
  | NonFinite

text \<open>One row of the record array \<open>nodules_dtype\<close>.\<close>

record nodule =
  patient_pos :: int
  offset :: "int vec3"
  img_size :: "int vec3"
  nodule_center :: "real vec3"
  nodule_size :: "real vec3"
  spacing :: "real vec3"
  origin :: "real vec3"

text \<open>A three-dimensional float array: its shape and its cells.\<close>

record array3 =
  dims :: "nat vec3"
  cell :: "nat \<Rightarrow> nat \<Rightarrow> nat \<Rightarrow> real"

text \<open>
  The state of a \<open>CTImagesMaskedBatch\<close>. The attributes \<open>indices\<close>, \<open>lower_bounds\<close>,
  \<open>shape\<close>, \<open>spacing\<close>, \<open>origin\<close> and \<open>data\<close> are those of the parent class
  \<open>CTImagesBatch\<close>, taken as given; \<open>len(self)\<close> is the number of indices.
  \<open>warnings\<close> collects what the module's logger is given.
\<close>

record batch =
  indices :: "string list"
  lower_bounds :: "int list"
  shape :: "int vec3 list"
  spacing_b :: "real vec3 list"
  origin_b :: "real vec3 list"
  data :: array3
  mask_b :: "array3 option"
  nodules :: "nodule list option"
  warnings :: "string list"

definition len_batch :: "batch \<Rightarrow> nat" where
  "len_batch b = length (indices b)"

section \<open>numpy primitives\<close>

text \<open>\<open>np.rint\<close>: the nearest integer, a tie going to the even neighbour.\<close>

definition rint :: "real \<Rightarrow> int" where
  "rint x =
     (let f = \<lfloor>x\<rfloor>; d = x - of_int f
      in if d < 1 / 2 then f
         else if 1 / 2 < d then f + 1
         else if even f then f else f + 1)"

text \<open>\<open>astype(np.int)\<close> and \<open>int(...)\<close> on a float: truncation toward zero.\<close>

definition trunc :: "real \<Rightarrow> int" where
  "trunc x = (if 0 \<le> x then \<lfloor>x\<rfloor> else \<lceil>x\<rceil>)"

text \<open>
  \<open>a[i]\<close> for an integer \<open>i\<close>: positions are counted from the front when \<open>i\<close> is
  not negative and from the back when it is; outside both ranges numpy raises IndexError.
\<close>

definition np_get :: "'a list \<Rightarrow> int \<Rightarrow> error + 'a" where
  "np_get xs i =
     (if 0 \<le> i \<and> i < int (length xs) then Inr (xs ! nat i)
      else if i < 0 \<and> - int (length xs) \<le> i then Inr (xs ! nat (int (length xs) + i))
      else Inl IndexError)"

text \<open>Indexing with an array of integers (\<open>a[idx]\<close>, \<open>a[idx, :]\<close>): row by row.\<close>

fun np_take :: "'a list \<Rightarrow> int list \<Rightarrow> error + 'a list" where
  "np_take xs [] = Inr []"
| "np_take xs (i # is) =
     (case np_get xs i of
        Inl e \<Rightarrow> Inl e
      | Inr v \<Rightarrow> (case np_take xs is of Inl e \<Rightarrow> Inl e | Inr vs \<Rightarrow> Inr (v # vs)))"

definition zeros_like :: "array3 \<Rightarrow> array3" where
  "zeros_like a = \<lparr>dims = dims a, cell = (\<lambda>i j k. 0)\<rparr>"

section \<open>The nodule registry\<close>

definition num_nodules :: "batch \<Rightarrow> int" where
  "num_nodules b = (case nodules b of Some ns \<Rightarrow> int (length ns) | None \<Rightarrow> 0)"

definition set_offset0 :: "nodule \<Rightarrow> int \<Rightarrow> nodule" where
  "set_offset0 n v = (case offset n of (a, b, c) \<Rightarrow> n\<lparr>offset := (v, b, c)\<rparr>)"

text \<open>
  \<open>_refresh_nodules_info\<close>: four assignments, each reading the batch at the rows
  \<open>patient_pos\<close>. The right-hand side of an assignment is evaluated before anything is
  stored, so an assignment that raises leaves the state as the assignments before it
  made it. The result is the raised error, if any, and the state left behind.
\<close>

definition refresh_nodules_info :: "batch \<Rightarrow> error option \<times> batch" where
  "refresh_nodules_info b =
     (case nodules b of
        None \<Rightarrow> (Some AttributeError, b)
      | Some ns0 \<Rightarrow>
         (let pp = map patient_pos ns0 in
          case np_take (lower_bounds b) pp of
            Inl e \<Rightarrow> (Some e, b)
          | Inr lbs \<Rightarrow>
             (let ns1 = map2 set_offset0 ns0 lbs in
              case np_take (spacing_b b) pp of
                Inl e \<Rightarrow> (Some e, b\<lparr>nodules := Some ns1\<rparr>)
              | Inr sps \<Rightarrow>
                 (let ns2 = map2 (\<lambda>n v. n\<lparr>spacing := v\<rparr>) ns1 sps in
                  case np_take (origin_b b) pp of
                    Inl e \<Rightarrow> (Some e, b\<lparr>nodules := Some ns2\<rparr>)
                  | Inr ors \<Rightarrow>
                     (let ns3 = map2 (\<lambda>n v. n\<lparr>origin := v\<rparr>) ns2 ors in
                      case np_take (shape b) pp of
                        Inl e \<Rightarrow> (Some e, b\<lparr>nodules := Some ns3\<rparr>)
                      | Inr shs \<Rightarrow>
                          (None,
                           b\<lparr>nodules := Some (map2 (\<lambda>n v. n\<lparr>img_size := v\<rparr>) ns3 shs)\<rparr>))))))"

text \<open>
  A row of the annotation table: \<open>seriesuid\<close>, \<open>coordZ\<close>, \<open>coordY\<close>, \<open>coordX\<close>,
  \<open>diameter_mm\<close>.
\<close>

type_synonym annotation = "string \<times> real \<times> real \<times> real \<times> real"

definition zero_nodule :: nodule where
  "zero_nodule =
     \<lparr>patient_pos = 0, offset = (0, 0, 0), img_size = (0, 0, 0),
      nodule_center = (0, 0, 0), nodule_size = (0, 0, 0),
      spacing = (0, 0, 0), origin = (0, 0, 0)\<rparr>"

text \<open>\<open>self.index.get_pos(pat_id)\<close>: the position of an index of the batch.\<close>

fun get_pos :: "string list \<Rightarrow> string \<Rightarrow> nat" where
  "get_pos [] u = 0"
| "get_pos (v # vs) u = (if v = u then 0 else Suc (get_pos vs u))"

text \<open>
  The rows of the table kept by \<open>nodules_df.loc[inter_index, ...]\<close>: for each series
  of the sorted intersection in turn, its rows in table order.
\<close>

definition select_rows :: "string list \<Rightarrow> annotation list \<Rightarrow> annotation list" where
  "select_rows idx df =
     (let unique_indices = remdups (map fst df);
          inter_index = sort (remdups (filter (\<lambda>u. u \<in> set idx) unique_indices))
      in concat (map (\<lambda>u. filter (\<lambda>r. fst r = u) df) inter_index))"

fun row_nodule :: "string list \<Rightarrow> annotation \<Rightarrow> nodule" where
  "row_nodule idx (pat_id, coordz, coordy, coordx, diam) =
     zero_nodule\<lparr>patient_pos := int (get_pos idx pat_id),
                 nodule_center := (coordz, coordy, coordx),
                 nodule_size := (diam, diam, diam)\<rparr>"

definition already_extracted :: string where
  "already_extracted =
     ''Nodules have already been extracted. Put update argument as True for refreshing''"

definition fetch_nodules_info :: "annotation list \<Rightarrow> bool \<Rightarrow> batch \<Rightarrow> error option \<times> batch" where
  "fetch_nodules_info nodules_df update b =
     (if nodules b \<noteq> None \<and> \<not> update
      then (None, b\<lparr>warnings := warnings b @ [already_extracted]\<rparr>)
      else refresh_nodules_info
             (b\<lparr>nodules := Some (map (row_nodule (indices b))
                                     (select_rows (indices b) nodules_df))\<rparr>))"

section \<open>Pixel coordinates and masks\<close>

text \<open>
  Lines 292 to 307 of \<open>_fit_into_bounds\<close> on one cell, for finite values: the start and
  the end of the box along one axis, before the offset is added. \<open>shift\<close> is the random
  shift added to that cell (zero when no variance is given).
\<close>

definition fit_axis :: "real \<Rightarrow> real \<Rightarrow> real \<Rightarrow> int \<Rightarrow> int \<Rightarrow> real \<Rightarrow> real \<times> real" where
  "fit_axis center orig sp sz img shift =
     (let center_pix = \<bar>center - orig\<bar> / sp;
          start_pix = of_int (rint center_pix) - of_int (rint (of_int sz / 2));
          start_pix = start_pix + shift;
          end_pix = start_pix + of_int sz;
          bias_upper = max (end_pix - of_int img) 0;
          start_pix = start_pix - bias_upper;
          end_pix = end_pix - bias_upper;
          bias_lower = max (- start_pix) 0;
          start_pix = start_pix + bias_lower;
          end_pix = end_pix + bias_lower
      in (start_pix, end_pix))"

text \<open>
  The random source. \<open>rng_normal v i\<close> is row \<open>i\<close> of
  \<open>np.random.multivariate_normal(np.zeros(3), np.diag(v), n)\<close>; \<open>rng_choice n j\<close> is draw
  \<open>j\<close> of \<open>np.random.choice(np.arange(n), k, replace=True)\<close>; \<open>rng_sample n k\<close> is
  \<open>np.random.choice(np.arange(n), size=k, replace=False)\<close>; \<open>rng_rand j\<close> is row \<open>j\<close> of
  \<open>np.random.rand(k, 3)\<close>.
\<close>

record rng =
  rng_normal :: "int vec3 \<Rightarrow> nat \<Rightarrow> real vec3"
  rng_choice :: "nat \<Rightarrow> nat \<Rightarrow> nat"
  rng_sample :: "nat \<Rightarrow> nat \<Rightarrow> nat list"
  rng_rand :: "nat \<Rightarrow> real vec3"

text \<open>The shift of row \<open>i\<close>: nothing is added when \<open>variance\<close> is None.\<close>

definition shift_row :: "rng \<Rightarrow> int vec3 option \<Rightarrow> nat \<Rightarrow> real vec3" where
  "shift_row r variance i = (case variance of None \<Rightarrow> (0, 0, 0) | Some v \<Rightarrow> rng_normal r v i)"

text \<open>\<open>start_pix\<close> and \<open>end_pix\<close> of a record on an axis, as line 307 leaves them.\<close>

definition fit_box :: "nodule \<Rightarrow> int vec3 \<Rightarrow> real vec3 \<Rightarrow> axis \<Rightarrow> real \<times> real" where
  "fit_box n sz shift ax =
     fit_axis (comp3 (nodule_center n) ax) (comp3 (origin n) ax) (comp3 (spacing n) ax)
       (comp3 sz ax) (comp3 (img_size n) ax) (comp3 shift ax)"

text \<open>
  The cell that \<open>_fit_into_bounds\<close> returns: \<open>(start_pix + offset).astype(np.int)\<close>. A zero
  spacing makes \<open>center_pix\<close> infinite or nan, every later value of the cell nan, and the
  integer converted from it undefined: \<open>None\<close>.
\<close>

definition fit_cell :: "nodule \<Rightarrow> int vec3 \<Rightarrow> real vec3 \<Rightarrow> axis \<Rightarrow> int option" where
  "fit_cell n sz shift ax =
     (if comp3 (spacing n) ax = 0 then None
      else Some (trunc (fst (fit_box n sz shift ax) + of_int (comp3 (offset n) ax))))"

definition fit_row :: "int vec3 \<Rightarrow> real vec3 \<Rightarrow> nodule \<Rightarrow> int option vec3" where
  "fit_row sz shift n = vec_of (fit_cell n sz shift)"

definition fit_into_bounds :: "rng \<Rightarrow> batch \<Rightarrow> int vec3 \<Rightarrow> int vec3 option \<Rightarrow> error + int option vec3 list" where
  "fit_into_bounds r b sz variance =
     (case nodules b of
        None \<Rightarrow> Inl AttributeError
      | Some ns \<Rightarrow>
          Inr (map (\<lambda>i. fit_row sz (shift_row r variance i) (ns ! i)) [0..<length ns]))"

definition must_be_loaded :: string where
  "must_be_loaded =
     ''Info about nodules location must be loaded before calling this method. Nothing happened.''"

text \<open>
  \<open>make_mask_numba\<close> is imported from a module that is not part of the sources at hand; it
  is a parameter. It is given the mask, the offsets, the upper corners, the start pixels
  and the sizes in pixels; a cell that a zero spacing made non-finite is \<open>None\<close>.
\<close>

type_synonym mask_maker =
  "array3 \<Rightarrow> int vec3 list \<Rightarrow> int vec3 list \<Rightarrow> int option vec3 list \<Rightarrow> int option vec3 list \<Rightarrow> array3"

definition mask_start :: "nodule \<Rightarrow> int option vec3" where
  "mask_start n =
     vec_of (\<lambda>ax. let sp = comp3 (spacing n) ax in
                   if sp = 0 then None
                   else Some (rint (\<bar>comp3 (nodule_center n) ax - comp3 (origin n) ax\<bar> / sp
                                    - of_int (rint (comp3 (nodule_size n) ax / sp / 2)))))"

definition mask_size :: "nodule \<Rightarrow> int option vec3" where
  "mask_size n =
     vec_of (\<lambda>ax. let sp = comp3 (spacing n) ax in
                   if sp = 0 then None else Some (rint (comp3 (nodule_size n) ax / sp)))"

definition upper_corner :: "nodule \<Rightarrow> int vec3" where
  "upper_corner n = vec_of (\<lambda>ax. comp3 (img_size n) ax + comp3 (offset n) ax)"

text \<open>
  \<open>create_mask\<close>. The warning branch has no \<open>return\<close>: the mask is replaced by zeros and
  the next statement reads \<open>self.nodules.nodule_center\<close>.
\<close>

definition create_mask :: "mask_maker \<Rightarrow> batch \<Rightarrow> error option \<times> batch" where
  "create_mask make_mask_numba b =
     (let b1 = (if nodules b = None then b\<lparr>warnings := warnings b @ [must_be_loaded]\<rparr> else b);
          b2 = b1\<lparr>mask_b := Some (zeros_like (data b1))\<rparr>
      in case nodules b2 of
           None \<Rightarrow> (Some AttributeError, b2)
         | Some ns \<Rightarrow>
             (None,
              b2\<lparr>mask_b := Some (make_mask_numba (zeros_like (data b1)) (map offset ns)
                                   (map upper_corner ns) (map mask_start ns) (map mask_size ns))\<rparr>))"

section \<open>Sampling\<close>

definition sample_random_nodules :: "rng \<Rightarrow> batch \<Rightarrow> int \<Rightarrow> int vec3 \<Rightarrow> error + int vec3 list" where
  "sample_random_nodules r b num nodule_sz =
     (if num < 0 \<or> (len_batch b = 0 \<and> 0 < num) then Inl ValueError
      else
        (let sampled_indices = map (\<lambda>j. int (rng_choice r (len_batch b) j)) [0..<nat num] in
         case np_take (lower_bounds b) sampled_indices of
           Inl e \<Rightarrow> Inl e
         | Inr lbs \<Rightarrow>
            (case np_take (shape b) sampled_indices of
               Inl e \<Rightarrow> Inl e
             | Inr data_shape \<Rightarrow>
                 Inr (map (\<lambda>j. vec_of (\<lambda>ax.
                             trunc (comp3 (rng_rand r j) ax
                                      * of_int (comp3 (data_shape ! j) ax - comp3 nodule_sz ax)
                                    + of_int (comp3 (lbs ! j, 0, 0) ax))))
                          [0..<nat num]))))"




section \<open>Patches\<close>

text \<open>A four-dimensional float array: the first dimension enumerates patches.\<close>

record array4 =
  len4 :: nat
  dims4 :: "nat vec3"
  cell4 :: "nat \<Rightarrow> nat \<Rightarrow> nat \<Rightarrow> nat \<Rightarrow> real"

text \<open>
  A slice \<open>a:b\<close> of an axis of length \<open>n\<close>: a negative bound counts from the end, and
  both bounds are clipped to the axis. The result is the first index and the length.
\<close>

definition slice_bound :: "int \<Rightarrow> nat \<Rightarrow> nat" where
  "slice_bound i n = (if i < 0 then nat (max (i + int n) 0) else min (nat i) n)"

definition slice_of :: "int \<times> int \<Rightarrow> nat \<Rightarrow> nat \<times> nat" where
  "slice_of slc n =
     (let lo = slice_bound (fst slc) n; hi = slice_bound (snd slc) n in (lo, hi - lo))"

fun slice3 :: "array3 \<Rightarrow> int \<times> int \<Rightarrow> int \<times> int \<Rightarrow> int \<times> int \<Rightarrow> array3" where
  "slice3 img slc_x slc_y slc_z =
     (case dims img of (n, m, k) \<Rightarrow>
        (case (slice_of slc_x n, slice_of slc_y m, slice_of slc_z k) of
           ((x0, lx), (y0, ly), (z0, lz)) \<Rightarrow>
             \<lparr>dims = (lx, ly, lz), cell = (\<lambda>a b c. cell img (x0 + a) (y0 + b) (z0 + c))\<rparr>))"

text \<open>
  \<open>out_arr[ctr, :, :, :] = v\<close>: an axis of \<open>v\<close> must have the length of the target's or
  length one (it is then repeated); a patch number out of range is reported as IndexError.
\<close>

definition bcast :: "nat \<Rightarrow> nat \<Rightarrow> nat" where
  "bcast d i = (if d = 1 then 0 else i)"

fun set_patch :: "array4 \<Rightarrow> nat \<Rightarrow> array3 \<Rightarrow> error + array4" where
  "set_patch out ctr v =
     (case (dims4 out, dims v) of
        ((l, s, t), (a, b, c)) \<Rightarrow>
          if \<not> ctr < len4 out then Inl IndexError
          else if (a = l \<or> a = 1) \<and> (b = s \<or> b = 1) \<and> (c = t \<or> c = 1)
          then Inr (out\<lparr>cell4 := (cell4 out)
                       (ctr := (\<lambda>i j k. cell v (bcast a i) (bcast b j) (bcast c k)))\<rparr>)
          else Inl ValueError)"

text \<open>
  \<open>(shape - patch_shape) // stride + 1\<close>, a floor division of floats. A zero stride
  gives no finite number of sections.
\<close>

fun num_sections :: "nat vec3 \<Rightarrow> int vec3 \<Rightarrow> int vec3 \<Rightarrow> error + int vec3" where
  "num_sections (n0, n1, n2) (p0, p1, p2) (s0, s1, s2) =
     (if s0 = 0 \<or> s1 = 0 \<or> s2 = 0 then Inl NonFinite
      else Inr ((int n0 - p0) div s0 + 1, (int n1 - p1) div s1 + 1, (int n2 - p2) div s2 + 1))"

text \<open>The index triples of the three nested \<open>range\<close> loops, in the order they run.\<close>

fun sections :: "int vec3 \<Rightarrow> (nat \<times> nat \<times> nat) list" where
  "sections (m0, m1, m2) =
     List.product [0..<nat m0] (List.product [0..<nat m1] [0..<nat m2])"

definition window :: "nat \<Rightarrow> int \<Rightarrow> int \<Rightarrow> int \<times> int" where
  "window i st ps = (int i * st, int i * st + ps)"

fun put_loop ::
  "array3 \<Rightarrow> int vec3 \<Rightarrow> int vec3 \<Rightarrow> (nat \<times> nat \<times> nat) list \<Rightarrow> nat \<Rightarrow> array4
     \<Rightarrow> error + nat \<times> array4" where
  "put_loop img patch_shape stride [] ctr out = Inr (ctr, out)"
| "put_loop img patch_shape stride ((ix, iy, iz) # rest) ctr out =
     (let slc_x = window ix (comp3 stride A0) (comp3 patch_shape A0);
          slc_y = window iy (comp3 stride A1) (comp3 patch_shape A1);
          slc_z = window iz (comp3 stride A2) (comp3 patch_shape A2)
      in case set_patch out ctr (slice3 img slc_x slc_y slc_z) of
           Inl e \<Rightarrow> Inl e
         | Inr out' \<Rightarrow> put_loop img patch_shape stride rest (Suc ctr) out')"

text \<open>
  \<open>put_patches_numba\<close>: the result is the final value of \<open>ctr\<close>, the number of patches
  written, and the array \<open>out_arr\<close> as the loop leaves it.
\<close>

definition put_patches_numba ::
  "array3 \<Rightarrow> int vec3 \<Rightarrow> int vec3 \<Rightarrow> array4 \<Rightarrow> error + nat \<times> array4" where
  "put_patches_numba img patch_shape stride out_arr =
     (case num_sections (dims img) patch_shape stride of
        Inl e \<Rightarrow> Inl e
      | Inr ns \<Rightarrow> put_loop img patch_shape stride (sections ns) 0 out_arr)"

text \<open>
  The names that \<open>assemble_patches\<close> can read: its parameters and local variables, and the
  names bound at module level. Reading any other name raises NameError.
\<close>

definition assemble_scope :: "string list" where
  "assemble_scope =
     [''patches'', ''stride'', ''out_arr'', ''fake'', ''out_arr_shape'', ''i'',
      ''patch_shape'', ''num_sections'', ''weights_inv'', ''ctr'', ''ix'', ''iy'', ''iz'',
      ''slc_x'', ''slc_y'', ''slc_z'',
      ''np'', ''guvectorize'', ''int64'', ''float64'', ''put_patches_numba'',
      ''assemble_patches'']"

definition resolve :: "string \<Rightarrow> error + unit" where
  "resolve name = (if name \<in> set assemble_scope then Inr () else Inl (NameError name))"

text \<open>\<open>w[slc_x, slc_y, slc_z] += 1.0\<close>.\<close>

definition in_slice :: "nat \<times> nat \<Rightarrow> nat \<Rightarrow> bool" where
  "in_slice s i = (fst s \<le> i \<and> i < fst s + snd s)"

fun add_one :: "array3 \<Rightarrow> int \<times> int \<Rightarrow> int \<times> int \<Rightarrow> int \<times> int \<Rightarrow> array3" where
  "add_one w slc_x slc_y slc_z =
     (case dims w of (n, m, k) \<Rightarrow>
        w\<lparr>cell := (\<lambda>a b c.
             if in_slice (slice_of slc_x n) a \<and> in_slice (slice_of slc_y m) b
                \<and> in_slice (slice_of slc_z k) c
             then cell w a b c + 1 else cell w a b c)\<rparr>)"

text \<open>
  The loop of \<open>assemble_patches\<close> over the state (\<open>out_arr\<close>, \<open>weights_inv\<close>). Its first
  statement is \<open>img[slc_x, slc_y, slc_z] += patches[ctr, :, :, :]\<close>: it reads the name
  \<open>img\<close> and stores into that object, never into \<open>out_arr\<close>.
\<close>

fun assemble_loop ::
  "array4 \<Rightarrow> int vec3 \<Rightarrow> nat vec3 \<Rightarrow> (nat \<times> nat \<times> nat) list \<Rightarrow> nat \<Rightarrow> array3 \<times> array3
     \<Rightarrow> error + array3 \<times> array3" where
  "assemble_loop patches stride patch_shape [] ctr st = Inr st"
| "assemble_loop patches stride patch_shape ((ix, iy, iz) # rest) ctr (out_arr, weights_inv) =
     (let slc_x = window ix (comp3 stride A0) (int (comp3 patch_shape A0));
          slc_y = window iy (comp3 stride A1) (int (comp3 patch_shape A1));
          slc_z = window iz (comp3 stride A2) (int (comp3 patch_shape A2))
      in case resolve ''img'' of
           Inl e \<Rightarrow> Inl e
         | Inr _ \<Rightarrow>
             assemble_loop patches stride patch_shape rest (Suc ctr)
               (out_arr, add_one weights_inv slc_x slc_y slc_z))"

text \<open>
  \<open>out_arr /= weights_inv\<close>. A cell whose weight is zero becomes inf or nan; the array
  is then reported as NonFinite.
\<close>

fun positions :: "nat vec3 \<Rightarrow> (nat \<times> nat \<times> nat) list" where
  "positions (n, m, k) = List.product [0..<n] (List.product [0..<m] [0..<k])"

definition divide_by :: "array3 \<Rightarrow> array3 \<Rightarrow> error + array3" where
  "divide_by out_arr w =
     (if list_ex (\<lambda>(a, b, c). cell w a b c = 0) (positions (dims out_arr)) then Inl NonFinite
      else Inr (out_arr\<lparr>cell := (\<lambda>a b c. cell out_arr a b c / cell w a b c)\<rparr>))"

definition assemble_patches :: "array4 \<Rightarrow> int vec3 \<Rightarrow> array3 \<Rightarrow> error + array3" where
  "assemble_patches patches stride out_arr =
     (let patch_shape = dims4 patches in
      case num_sections (dims out_arr) (vec_of (\<lambda>ax. int (comp3 patch_shape ax))) stride of
        Inl e \<Rightarrow> Inl e
      | Inr ns \<Rightarrow>
         (case assemble_loop patches stride patch_shape (sections ns) 0
                 (out_arr, zeros_like out_arr) of
            Inl e \<Rightarrow> Inl e
          | Inr (out', weights_inv) \<Rightarrow> divide_by out' weights_inv))"

section \<open>The clamped start as the specification words it\<close>





section \<open>Example states\<close>

text \<open>
  One patient of 10 x 10 x 10 voxels with unit spacing and origin zero, and the two
  nodules of the specification's scenarios.
\<close>

definition ex_batch :: batch where
  "ex_batch =
     \<lparr>indices = [''p0''], lower_bounds = [0], shape = [(10, 10, 10)],
      spacing_b = [(1, 1, 1)], origin_b = [(0, 0, 0)],
      data = \<lparr>dims = (10, 10, 10), cell = (\<lambda>i j k. 1)\<rparr>,
      mask_b = None, nodules = None, warnings = []\<rparr>"

definition ex_nodule :: "real \<Rightarrow> nodule" where
  "ex_nodule c =
     \<lparr>patient_pos = 0, offset = (0, 0, 0), img_size = (10, 10, 10),
      nodule_center = (c, c, c), nodule_size = (4, 4, 4),
      spacing = (1, 1, 1), origin = (0, 0, 0)\<rparr>"

definition ex_loaded :: batch where
  "ex_loaded = ex_batch\<lparr>nodules := Some [ex_nodule 5, ex_nodule 1]\<rparr>"

text \<open>A random source with fixed draws.\<close>

definition ex_rng :: rng where
  "ex_rng =
     \<lparr>rng_normal = (\<lambda>v i. (5 / 2, - 7 / 2, 0)), rng_choice = (\<lambda>n j. 0),
      rng_sample = (\<lambda>n k. [0..<k]), rng_rand = (\<lambda>j. (1 / 2, 0, 9 / 10))\<rparr>"

text \<open>
  A 10 x 10 x 10 image whose cell \<open>(i, j, k)\<close> holds \<open>100 i + 10 j + k\<close>, and an output
  array for eight patches of 5 x 5 x 5.
\<close>

definition ex_img :: array3 where
  "ex_img = \<lparr>dims = (10, 10, 10), cell = (\<lambda>i j k. real (100 * i + 10 * j + k))\<rparr>"

definition ex_out :: array4 where
  "ex_out = \<lparr>len4 = 8, dims4 = (5, 5, 5), cell4 = (\<lambda>n i j k. 0)\<rparr>"

section \<open>Properties of the nodule registry\<close>

lemma np_take_length: "np_take xs is = Inr vs \<Longrightarrow> length vs = length is"
  by (induction "is" arbitrary: vs) (auto split: sum.splits)

lemma set_offset0_eq:
  "set_offset0 n v = n\<lparr>offset := (v, fst (snd (offset n)), snd (snd (offset n)))\<rparr>"
  by (cases "offset n") (simp add: set_offset0_def)

lemma map2_fix:
  assumes "length vs = length xs" and "\<And>i. i < length xs \<Longrightarrow> f (xs ! i) (vs ! i) = xs ! i"
  shows "map2 f xs vs = xs"
  using assms by (intro nth_equalityI) simp_all

lemma map2_patient_pos:
  assumes "length vs = length xs" and "\<And>n v. patient_pos (f n v) = patient_pos n"
  shows "map patient_pos (map2 f xs vs) = map patient_pos xs"
  using assms by (intro nth_equalityI) simp_all

text \<open>
  C10. \<open>num_nodules\<close> is 0 (and so not -1) while the registry has not been ingested
  (\<open>self.nodules is None\<close>), and the number of nodule records otherwise; it never raises.
\<close>

theorem num_nodules_count:
  "(nodules b = None \<longrightarrow> num_nodules b = 0 \<and> num_nodules b \<noteq> - 1)
   \<and> (\<forall>ns. nodules b = Some ns \<longrightarrow> num_nodules b = int (length ns))"
  by (simp add: num_nodules_def)

theorem num_nodules_count_witness:
  "nodules ex_batch = None \<and> num_nodules ex_batch = 0
   \<and> num_nodules ex_loaded = int (length [ex_nodule 5, ex_nodule 1])"
  using num_nodules_count [of ex_batch] num_nodules_count [of ex_loaded]
  by (simp add: ex_batch_def ex_loaded_def)

text \<open>
  C6. On a registry that is already populated, \<open>fetch_nodules_info\<close> without the
  overwrite flag (\<open>update=False\<close>) returns the batch with no error and with every
  attribute as it was, \<open>self.nodules\<close> included; only the warning is added to the log.
\<close>

theorem fetch_nodules_info_populated:
  assumes "nodules b \<noteq> None"
  shows "fetch_nodules_info nodules_df False b
           = (None, b\<lparr>warnings := warnings b @ [already_extracted]\<rparr>)"
  using assms by (simp add: fetch_nodules_info_def)

theorem fetch_nodules_info_populated_witness:
  "nodules ex_loaded \<noteq> None
   \<and> fetch_nodules_info [(''p0'', 2, 2, 2, 3)] False ex_loaded
       = (None, ex_loaded\<lparr>warnings := [already_extracted]\<rparr>)
   \<and> nodules (snd (fetch_nodules_info [(''p0'', 2, 2, 2, 3)] False ex_loaded))
       = Some [ex_nodule 5, ex_nodule 1]"
proof -
  have h: "nodules ex_loaded \<noteq> None" by (simp add: ex_loaded_def)
  show ?thesis
    using h fetch_nodules_info_populated [OF h, of "[(''p0'', 2, 2, 2, 3)]"]
    by (simp add: ex_loaded_def ex_batch_def)
qed

text \<open>
  C7. Running \<open>_refresh_nodules_info\<close> a second time, with the geometry of the batch as
  the first run found it, changes nothing: the state after the second run, with every
  field of every nodule record, is the state after the first, and the outcome is the
  same. This holds for every batch state, also one in which the refresh raises.
\<close>

theorem refresh_nodules_info_idem:
  "refresh_nodules_info (snd (refresh_nodules_info b)) = refresh_nodules_info b"
proof (cases "nodules b")
  case None
  then show ?thesis by (simp add: refresh_nodules_info_def)
next
  case (Some ns)
  define pp where "pp = map patient_pos ns"
  show ?thesis
  proof (cases "np_take (lower_bounds b) pp")
    case (Inl e)
    then show ?thesis using Some by (simp add: refresh_nodules_info_def pp_def)
  next
    case lb: (Inr lbs)
    define ns1 where "ns1 = map2 set_offset0 ns lbs"
    have l1: "length lbs = length ns" using np_take_length[OF lb] by (simp add: pp_def)
    have n1: "length ns1 = length ns" by (simp add: ns1_def l1)
    have p1: "map patient_pos ns1 = pp"
      unfolding ns1_def pp_def by (rule map2_patient_pos[OF l1]) (simp add: set_offset0_eq)
    have f1: "map2 set_offset0 ns1 lbs = ns1"
      by (rule map2_fix) (simp_all add: l1 n1 ns1_def set_offset0_eq)
    show ?thesis
    proof (cases "np_take (spacing_b b) pp")
      case (Inl e)
      then show ?thesis using Some lb p1 f1
        by (simp add: refresh_nodules_info_def pp_def[symmetric] ns1_def[symmetric])
    next
      case sp: (Inr sps)
      define ns2 where "ns2 = map2 (\<lambda>n v. n\<lparr>spacing := v\<rparr>) ns1 sps"
      have l2: "length sps = length ns" using np_take_length[OF sp] by (simp add: pp_def)
      have n2: "length ns2 = length ns" by (simp add: ns2_def l2 n1)
      have p2: "map patient_pos ns2 = pp"
        unfolding ns2_def p1[symmetric] by (rule map2_patient_pos) (simp_all add: l2 n1)
      have f2: "map2 set_offset0 ns2 lbs = ns2"
        by (rule map2_fix) (simp_all add: l1 l2 n1 n2 ns2_def ns1_def set_offset0_eq)
      have g2: "map2 (\<lambda>n v. n\<lparr>spacing := v\<rparr>) ns2 sps = ns2"
        by (rule map2_fix) (simp_all add: l1 l2 n1 n2 ns2_def)
      show ?thesis
      proof (cases "np_take (origin_b b) pp")
        case (Inl e)
        then show ?thesis using Some lb sp p2 f2 g2
          by (simp add: refresh_nodules_info_def pp_def[symmetric] ns1_def[symmetric]
              ns2_def[symmetric])
      next
        case og: (Inr ors)
        define ns3 where "ns3 = map2 (\<lambda>n v. n\<lparr>origin := v\<rparr>) ns2 ors"
        have l3: "length ors = length ns" using np_take_length[OF og] by (simp add: pp_def)
        have n3: "length ns3 = length ns" by (simp add: ns3_def l3 n2)
        have p3: "map patient_pos ns3 = pp"
          unfolding ns3_def p2[symmetric] by (rule map2_patient_pos) (simp_all add: l3 n2)
        have f3: "map2 set_offset0 ns3 lbs = ns3"
          by (rule map2_fix)
            (simp_all add: l1 l2 l3 n1 n2 n3 ns3_def ns2_def ns1_def set_offset0_eq)
        have g3: "map2 (\<lambda>n v. n\<lparr>spacing := v\<rparr>) ns3 sps = ns3"
          by (rule map2_fix) (simp_all add: l1 l2 l3 n1 n2 n3 ns3_def ns2_def)
        have h3: "map2 (\<lambda>n v. n\<lparr>origin := v\<rparr>) ns3 ors = ns3"
          by (rule map2_fix) (simp_all add: l1 l2 l3 n1 n2 n3 ns3_def)
        show ?thesis
        proof (cases "np_take (shape b) pp")
          case (Inl e)
          then show ?thesis using Some lb sp og p3 f3 g3 h3
            by (simp add: refresh_nodules_info_def pp_def[symmetric] ns1_def[symmetric]
                ns2_def[symmetric] ns3_def[symmetric])
        next
          case sh: (Inr shs)
          define ns4 where "ns4 = map2 (\<lambda>n v. n\<lparr>img_size := v\<rparr>) ns3 shs"
          have l4: "length shs = length ns" using np_take_length[OF sh] by (simp add: pp_def)
          have n4: "length ns4 = length ns" by (simp add: ns4_def l4 n3)
          have p4: "map patient_pos ns4 = pp"
            unfolding ns4_def p3[symmetric] by (rule map2_patient_pos) (simp_all add: l4 n3)
          have f4: "map2 set_offset0 ns4 lbs = ns4"
            by (rule map2_fix)
              (simp_all add: l1 l2 l3 l4 n1 n2 n3 n4 ns4_def ns3_def ns2_def ns1_def
                set_offset0_eq)
          have g4: "map2 (\<lambda>n v. n\<lparr>spacing := v\<rparr>) ns4 sps = ns4"
            by (rule map2_fix) (simp_all add: l1 l2 l3 l4 n1 n2 n3 n4 ns4_def ns3_def ns2_def)
          have h4: "map2 (\<lambda>n v. n\<lparr>origin := v\<rparr>) ns4 ors = ns4"
            by (rule map2_fix) (simp_all add: l1 l2 l3 l4 n1 n2 n3 n4 ns4_def ns3_def)
          have i4: "map2 (\<lambda>n v. n\<lparr>img_size := v\<rparr>) ns4 shs = ns4"
            by (rule map2_fix) (simp_all add: l1 l2 l3 l4 n1 n2 n3 n4 ns4_def)
          show ?thesis using Some lb sp og sh p4 f4 g4 h4 i4
            by (simp add: refresh_nodules_info_def pp_def[symmetric] ns1_def[symmetric]
                ns2_def[symmetric] ns3_def[symmetric] ns4_def[symmetric])
        qed
      qed
    qed
  qed
qed

theorem refresh_nodules_info_idem_witness:
  "fst (refresh_nodules_info ex_loaded) = None
   \<and> nodules (snd (refresh_nodules_info ex_loaded)) = Some [ex_nodule 5, ex_nodule 1]
   \<and> refresh_nodules_info (snd (refresh_nodules_info ex_loaded))
       = refresh_nodules_info ex_loaded"
  using refresh_nodules_info_idem [of ex_loaded]
  by (simp add: refresh_nodules_info_def ex_loaded_def ex_batch_def ex_nodule_def
      np_get_def set_offset0_def)

text \<open>
  C5. What \<open>create_mask\<close> does while the registry has not been ingested: the warning is
  logged, then the mask is overwritten with zeros and reading \<open>self.nodules.nodule_center\<close>
  raises AttributeError.
\<close>

lemma create_mask_unloaded:
  assumes "nodules b = None"
  shows "create_mask make_mask b
           = (Some AttributeError,
              b\<lparr>warnings := warnings b @ [must_be_loaded],
                mask_b := Some (zeros_like (data b))\<rparr>)"
  using assms by (simp add: create_mask_def)

theorem create_mask_before_ingestion:
  "fst (create_mask make_mask ex_batch) = Some AttributeError
   \<and> mask_b ex_batch = None
   \<and> mask_b (snd (create_mask make_mask ex_batch)) = Some (zeros_like (data ex_batch))
   \<and> warnings (snd (create_mask make_mask ex_batch)) = [must_be_loaded]"
  by (simp add: create_mask_def ex_batch_def)

section \<open>Properties of the clamped start\<close>


lemma trunc_between:
  assumes "0 \<le> x" and "x \<le> of_int m"
  shows "k \<le> trunc (x + of_int k) \<and> trunc (x + of_int k) \<le> k + m"
proof -
  have f: "\<lfloor>x + of_int k\<rfloor> = \<lfloor>x\<rfloor> + k" by simp
  have c: "\<lceil>x + of_int k\<rceil> = \<lceil>x\<rceil> + k" by simp
  have "0 \<le> \<lfloor>x\<rfloor>" using assms(1) by simp
  moreover have "\<lfloor>x\<rfloor> \<le> m" using assms(2) by (simp add: floor_le_iff)
  moreover have "0 \<le> \<lceil>x\<rceil>" using assms(1) by (simp add: zero_le_ceiling)
  moreover have "\<lceil>x\<rceil> \<le> m" using assms(2) by (simp add: ceiling_le)
  ultimately show ?thesis unfolding trunc_def f c by simp
qed

lemma comp3_vec_of: "comp3 (vec_of f) ax = f ax"
  by (cases ax) simp_all










section \<open>Properties of the samplers\<close>

lemma np_take_nth:
  "np_take xs is = Inr vs \<Longrightarrow> k < length is \<Longrightarrow> np_get xs (is ! k) = Inr (vs ! k)"
proof (induction "is" arbitrary: vs k)
  case Nil
  then show ?case by simp
next
  case (Cons i "is")
  then show ?case by (cases k) (auto split: sum.splits)
qed

lemma np_get_nat:
  "np_get xs (int p) = Inr v \<Longrightarrow> p < length xs \<and> v = xs ! p"
  by (auto simp: np_get_def split: if_splits)

lemma trunc_scaled:
  assumes "0 \<le> u" and "u < 1" and "0 \<le> d"
  shows "k \<le> trunc (u * of_int d + of_int k) \<and> trunc (u * of_int d + of_int k) \<le> k + d"
proof (rule trunc_between)
  show "0 \<le> u * of_int d" using assms by simp
  have "u * of_int d \<le> 1 * of_int d"
    using assms by (intro mult_right_mono) simp_all
  then show "u * of_int d \<le> of_int d" by simp
qed

lemma np_take_in_range:
  assumes "\<And>i. i \<in> set is \<Longrightarrow> 0 \<le> i \<and> i < int (length xs)"
  shows "\<exists>vs. np_take xs is = Inr vs"
  using assms by (induction "is") (auto simp: np_get_def)

lemma sample_random_nodules_returns:
  assumes "0 \<le> num" and "0 < len_batch b"
    and "length (lower_bounds b) = len_batch b" and "length (shape b) = len_batch b"
    and "\<And>j. j < nat num \<Longrightarrow> rng_choice r (len_batch b) j < len_batch b"
  shows "\<exists>rows. sample_random_nodules r b num nodule_sz = Inr rows"
proof -
  define idx where "idx = map (\<lambda>j. int (rng_choice r (len_batch b) j)) [0..<nat num]"
  have "\<And>i. i \<in> set idx \<Longrightarrow> 0 \<le> i \<and> i < int (len_batch b)"
    using assms(5) by (auto simp: idx_def)
  then obtain lbs shs where "np_take (lower_bounds b) idx = Inr lbs"
    "np_take (shape b) idx = Inr shs"
    using np_take_in_range[of idx "lower_bounds b"] np_take_in_range[of idx "shape b"]
    unfolding assms(3,4) by blast
  then show ?thesis
    using assms(1,2) by (simp add: sample_random_nodules_def Let_def idx_def[symmetric])
qed

text \<open>
  C8. Whenever \<open>sample_random_nodules\<close> returns (it does on a batch with a patient,
  see \<open>sample_random_nodules_returns\<close>), draw \<open>j\<close> with sampled patient \<open>p\<close> and
  a uniform number in [0, 1) gives, on every axis where \<open>nodule_size\<close> does not exceed the
  patient's shape, a start that, once the patient's lower bound is taken off on axis 0,
  is an integer between 0 and \<open>shape - nodule_size\<close>: the box lies within the patient's
  own range of the stacked array.
\<close>

theorem sample_random_nodules_within:
  assumes "sample_random_nodules r b num nodule_sz = Inr rows"
    and "j < nat num"
    and "p = rng_choice r (len_batch b) j"
    and "0 \<le> comp3 (rng_rand r j) ax" and "comp3 (rng_rand r j) ax < 1"
    and "comp3 nodule_sz ax \<le> comp3 (shape b ! p) ax"
  shows "length rows = nat num
         \<and> 0 \<le> comp3 (rows ! j) ax - comp3 (lower_bounds b ! p, 0, 0) ax
         \<and> comp3 (rows ! j) ax - comp3 (lower_bounds b ! p, 0, 0) ax
             \<le> comp3 (shape b ! p) ax - comp3 nodule_sz ax"
proof -
  define idx where "idx = map (\<lambda>j. int (rng_choice r (len_batch b) j)) [0..<nat num]"
  from assms(1) obtain lbs data_shape where
    lb: "np_take (lower_bounds b) idx = Inr lbs" and
    sh: "np_take (shape b) idx = Inr data_shape" and
    rows: "rows = map (\<lambda>j. vec_of (\<lambda>ax.
                             trunc (comp3 (rng_rand r j) ax
                                      * of_int (comp3 (data_shape ! j) ax - comp3 nodule_sz ax)
                                    + of_int (comp3 (lbs ! j, 0, 0) ax))))
                          [0..<nat num]"
    by (auto simp: sample_random_nodules_def Let_def idx_def split: if_splits sum.splits)
  have k: "j < length idx" "idx ! j = int p" using assms(2,3) by (simp_all add: idx_def)
  have lbj: "lbs ! j = lower_bounds b ! p"
    using np_get_nat[of "lower_bounds b" p "lbs ! j"] np_take_nth[OF lb k(1)] k(2) by simp
  have shj: "data_shape ! j = shape b ! p"
    using np_get_nat[of "shape b" p "data_shape ! j"] np_take_nth[OF sh k(1)] k(2) by simp
  have d: "0 \<le> comp3 (shape b ! p) ax - comp3 nodule_sz ax" using assms(6) by simp
  have "comp3 (rows ! j) ax = trunc (comp3 (rng_rand r j) ax
           * of_int (comp3 (shape b ! p) ax - comp3 nodule_sz ax)
           + of_int (comp3 (lower_bounds b ! p, 0, 0) ax))"
    using assms(2) by (simp add: rows comp3_vec_of lbj shj del: vec_of.simps)
  with trunc_scaled[OF assms(4,5) d, of "comp3 (lower_bounds b ! p, 0, 0) ax"]
  show ?thesis by (simp add: rows)
qed

theorem sample_random_nodules_within_witness:
  "sample_random_nodules ex_rng ex_batch 2 (4, 4, 4) = Inr [(3, 0, 5), (3, 0, 5)]
   \<and> (1::nat) < nat 2
   \<and> 0 = rng_choice ex_rng (len_batch ex_batch) 1
   \<and> 0 \<le> comp3 (rng_rand ex_rng 1) A2 \<and> comp3 (rng_rand ex_rng 1) A2 < 1
   \<and> comp3 (4, 4, 4) A2 \<le> comp3 (shape ex_batch ! 0) A2
   \<and> 0 \<le> comp3 ([(3, 0, 5), (3, 0, 5)] ! 1) A2 - comp3 (lower_bounds ex_batch ! 0, 0, 0) A2
   \<and> comp3 ([(3, 0, 5), (3, 0, 5)] ! 1) A2 - comp3 (lower_bounds ex_batch ! 0, 0, 0) A2
       \<le> comp3 (shape ex_batch ! 0) A2 - comp3 (4 :: int, 4 :: int, 4 :: int) A2"
proof -
  have e: "sample_random_nodules ex_rng ex_batch 2 (4, 4, 4) = Inr [(3, 0, 5), (3, 0, 5)]"
    by code_simp
  show ?thesis
    using e sample_random_nodules_within [OF e, of 1 0 A2]
    by (simp add: ex_batch_def ex_rng_def len_batch_def)
qed


lemma fit_into_bounds_length:
  "fit_into_bounds r b sz variance = Inr starts \<Longrightarrow> nodules b = Some ns
     \<Longrightarrow> length starts = length ns"
  by (auto simp: fit_into_bounds_def)





section \<open>Properties of the tiling\<close>

lemma num_sections_nat:
  assumes "0 < s0" "0 < s1" "0 < s2" and "p0 \<le> n0" "p1 \<le> n1" "p2 \<le> n2"
  shows "num_sections (n0, n1, n2) (int p0, int p1, int p2) (int s0, int s1, int s2)
           = Inr (int ((n0 - p0) div s0 + 1), int ((n1 - p1) div s1 + 1),
                  int ((n2 - p2) div s2 + 1))"
  using assms by (simp add: zdiv_int of_nat_diff)

lemma sections_nat:
  "sections (int m0, int m1, int m2) = List.product [0..<m0] (List.product [0..<m1] [0..<m2])"
  by simp

lemma nested_index:
  assumes "iy < m1" and "iz < (m2::nat)"
  shows "iy * m2 + iz < m1 * m2"
proof -
  have "iy * m2 + iz < iy * m2 + m2" using assms(2) by simp
  also have "\<dots> = Suc iy * m2" by simp
  also have "\<dots> \<le> m1 * m2" using assms(1) by (intro mult_le_mono1) simp
  finally show ?thesis .
qed

lemma product_upt_nth:
  assumes "ix < m0" and "j < length ys"
  shows "List.product [0..<m0] ys ! (ix * length ys + j) = (ix, ys ! j)"
proof -
  have lt: "ix * length ys + j < length [0..<m0] * length ys"
    using nested_index[OF assms] by simp
  have "0 < length ys" using assms(2) by linarith
  then have d: "(ix * length ys + j) div length ys = ix" "(ix * length ys + j) mod length ys = j"
    using assms(2) by simp_all
  show ?thesis unfolding product_nth[OF lt] d using assms(1) by simp
qed

lemma sections_nth:
  assumes "ix < m0" "iy < m1" "iz < m2"
  shows "sections (int m0, int m1, int m2) ! ((ix * m1 + iy) * m2 + iz) = (ix, iy, iz)"
proof -
  let ?ys = "List.product [0..<m1] [0..<m2]"
  have l: "length ?ys = m1 * m2" by simp
  have inner: "?ys ! (iy * m2 + iz) = (iy, iz)"
    using product_upt_nth[of iy m1 iz "[0..<m2]"] assms by simp
  have k: "(ix * m1 + iy) * m2 + iz = ix * length ?ys + (iy * m2 + iz)"
    by (simp add: algebra_simps)
  have "iy * m2 + iz < length ?ys" using nested_index[OF assms(2,3)] by simp
  from product_upt_nth[OF assms(1) this] show ?thesis
    unfolding sections_nat k inner .
qed

lemma sections_length: "length (sections (int m0, int m1, int m2)) = m0 * m1 * m2"
  by (simp add: mult.assoc)

lemma sections_set:
  "(ix, iy, iz) \<in> set (sections (int m0, int m1, int m2)) \<Longrightarrow> ix < m0 \<and> iy < m1 \<and> iz < m2"
  by auto

lemma slice_bound_nat: "slice_bound (int k) n = min k n"
  by (simp add: slice_bound_def)

lemma window_nat: "window i (int s) (int p) = (int (i * s), int (i * s + p))"
  by (simp add: window_def)

lemma slice_of_window:
  assumes "i * s + p \<le> n"
  shows "slice_of (window i (int s) (int p)) n = (i * s, p)"
proof -
  have "min (i * s) n = i * s" "min (i * s + p) n = i * s + p" using assms by simp_all
  then show ?thesis
    unfolding window_nat slice_of_def fst_conv snd_conv slice_bound_nat Let_def by simp
qed

lemma slice3_window:
  assumes "dims img = (n0, n1, n2)"
    and "ix * s0 + p0 \<le> n0" "iy * s1 + p1 \<le> n1" "iz * s2 + p2 \<le> n2"
  shows "slice3 img (window ix (int s0) (int p0)) (window iy (int s1) (int p1))
           (window iz (int s2) (int p2))
         = \<lparr>dims = (p0, p1, p2),
            cell = (\<lambda>a b c. cell img (ix * s0 + a) (iy * s1 + b) (iz * s2 + c))\<rparr>"
  by (simp add: assms(1) slice_of_window[OF assms(2)] slice_of_window[OF assms(3)]
      slice_of_window[OF assms(4)])

lemma bcast_below: "i < d \<Longrightarrow> bcast d i = i"
  by (auto simp: bcast_def)

lemma in_range_start:
  assumes "i < (n - p) div s + 1" and "p \<le> (n::nat)"
  shows "i * s + p \<le> n"
proof -
  have "i \<le> (n - p) div s" using assms(1) by simp
  then have "i * s \<le> (n - p) div s * s" by (rule mult_le_mono1)
  also have "\<dots> \<le> n - p" by (simp add: div_times_less_eq_dividend)
  finally show ?thesis using assms(2) by simp
qed

lemma put_loop_invariant:
  assumes "dims img = (n0, n1, n2)" and "dims4 out = (p0, p1, p2)"
    and "\<And>ix iy iz. (ix, iy, iz) \<in> set ts \<Longrightarrow>
           ix * s0 + p0 \<le> n0 \<and> iy * s1 + p1 \<le> n1 \<and> iz * s2 + p2 \<le> n2"
    and "ctr + length ts \<le> len4 out"
  shows "\<exists>out'. put_loop img (int p0, int p1, int p2) (int s0, int s1, int s2) ts ctr out
                  = Inr (ctr + length ts, out')
           \<and> len4 out' = len4 out \<and> dims4 out' = dims4 out
           \<and> (\<forall>k<ctr. cell4 out' k = cell4 out k)
           \<and> (\<forall>j<length ts. \<forall>a<p0. \<forall>b<p1. \<forall>c<p2.
                 cell4 out' (ctr + j) a b c
                   = (case ts ! j of (ix, iy, iz) \<Rightarrow>
                        cell img (ix * s0 + a) (iy * s1 + b) (iz * s2 + c)))"
  using assms(2-)
proof (induction ts arbitrary: ctr out)
  case Nil
  then show ?case by simp
next
  case (Cons t ts)
  obtain ix iy iz where t: "t = (ix, iy, iz)" by (cases t)
  have rng: "ix * s0 + p0 \<le> n0" "iy * s1 + p1 \<le> n1" "iz * s2 + p2 \<le> n2"
    using Cons.prems(2)[of ix iy iz] by (simp_all add: t)
  define v where "v = \<lparr>dims = (p0, p1, p2),
            cell = (\<lambda>a b c. cell img (ix * s0 + a) (iy * s1 + b) (iz * s2 + c))\<rparr>"
  define out1 where "out1 = out\<lparr>cell4 := (cell4 out)
                       (ctr := (\<lambda>i j k. cell v (bcast p0 i) (bcast p1 j) (bcast p2 k)))\<rparr>"
  have sp: "set_patch out ctr v = Inr out1"
    using Cons.prems(1,3) by (simp add: v_def out1_def)
  have step: "put_loop img (int p0, int p1, int p2) (int s0, int s1, int s2) (t # ts) ctr out
      = put_loop img (int p0, int p1, int p2) (int s0, int s1, int s2) ts (Suc ctr) out1"
    unfolding t put_loop.simps Let_def comp3.simps slice3_window[OF assms(1) rng]
    unfolding v_def[symmetric] sp by simp
  have d1: "dims4 out1 = (p0, p1, p2)" using Cons.prems(1) by (simp add: out1_def)
  have c1: "Suc ctr + length ts \<le> len4 out1" using Cons.prems(3) by (simp add: out1_def)
  have inr': "ix * s0 + p0 \<le> n0 \<and> iy * s1 + p1 \<le> n1 \<and> iz * s2 + p2 \<le> n2"
    if "(ix, iy, iz) \<in> set ts" for ix iy iz
    using Cons.prems(2)[of ix iy iz] that by simp
  from Cons.IH[OF d1 inr' c1]
  obtain out' where
    r: "put_loop img (int p0, int p1, int p2) (int s0, int s1, int s2) ts (Suc ctr) out1
          = Inr (Suc ctr + length ts, out')"
    and l: "len4 out' = len4 out1" and d: "dims4 out' = dims4 out1"
    and keep: "\<forall>k<Suc ctr. cell4 out' k = cell4 out1 k"
    and new: "\<forall>j<length ts. \<forall>a<p0. \<forall>b<p1. \<forall>c<p2.
                 cell4 out' (Suc ctr + j) a b c
                   = (case ts ! j of (ix, iy, iz) \<Rightarrow>
                        cell img (ix * s0 + a) (iy * s1 + b) (iz * s2 + c))"
    by auto
  have here: "\<forall>a<p0. \<forall>b<p1. \<forall>c<p2.
      cell4 out' ctr a b c = cell img (ix * s0 + a) (iy * s1 + b) (iz * s2 + c)"
    using keep by (simp add: out1_def v_def bcast_below)
  have old: "\<forall>k<ctr. cell4 out' k = cell4 out k"
    using keep by (simp add: out1_def)
  have all: "\<forall>j<length (t # ts). \<forall>a<p0. \<forall>b<p1. \<forall>c<p2.
                 cell4 out' (ctr + j) a b c
                   = (case (t # ts) ! j of (ix, iy, iz) \<Rightarrow>
                        cell img (ix * s0 + a) (iy * s1 + b) (iz * s2 + c))"
  proof (intro allI impI)
    fix j a b c
    assume j: "j < length (t # ts)" and abc: "a < p0" "b < p1" "c < p2"
    show "cell4 out' (ctr + j) a b c
                   = (case (t # ts) ! j of (ix, iy, iz) \<Rightarrow>
                        cell img (ix * s0 + a) (iy * s1 + b) (iz * s2 + c))"
    proof (cases j)
      case 0
      then show ?thesis using here abc by (simp add: t)
    next
      case (Suc j')
      then show ?thesis using new j abc by simp
    qed
  qed
  show ?case
    unfolding step r using l d old all by (simp add: out1_def)
qed

lemma put_patches_numba_result:
  assumes "dims img = (n0, n1, n2)"
    and "dims4 out_arr = (p0, p1, p2)"
    and "patch_shape = (int p0, int p1, int p2)"
    and "stride = (int s0, int s1, int s2)"
    and "0 < s0" "0 < s1" "0 < s2"
    and "p0 \<le> n0" "p1 \<le> n1" "p2 \<le> n2"
    and "m0 = (n0 - p0) div s0 + 1" "m1 = (n1 - p1) div s1 + 1" "m2 = (n2 - p2) div s2 + 1"
    and "m0 * m1 * m2 \<le> len4 out_arr"
  shows "\<exists>out. put_patches_numba img patch_shape stride out_arr = Inr (m0 * m1 * m2, out)
           \<and> len4 out = len4 out_arr \<and> dims4 out = dims4 out_arr
           \<and> (\<forall>ix<m0. \<forall>iy<m1. \<forall>iz<m2. \<forall>a<p0. \<forall>b<p1. \<forall>c<p2.
                 cell4 out ((ix * m1 + iy) * m2 + iz) a b c
                   = cell img (ix * s0 + a) (iy * s1 + b) (iz * s2 + c))"
proof -
  let ?ts = "sections (int m0, int m1, int m2)"
  have ns: "num_sections (dims img) patch_shape stride = Inr (int m0, int m1, int m2)"
    unfolding assms(1,3,4,11,12,13) by (rule num_sections_nat) (rule assms)+
  have inr: "ix * s0 + p0 \<le> n0 \<and> iy * s1 + p1 \<le> n1 \<and> iz * s2 + p2 \<le> n2"
    if "(ix, iy, iz) \<in> set ?ts" for ix iy iz
  proof -
    from sections_set[OF that] have i: "ix < (n0 - p0) div s0 + 1" "iy < (n1 - p1) div s1 + 1"
      "iz < (n2 - p2) div s2 + 1"
      unfolding assms(11-13) by blast+
    show ?thesis
      using in_range_start[OF i(1) assms(8)] in_range_start[OF i(2) assms(9)]
        in_range_start[OF i(3) assms(10)] by blast
  qed
  have cap: "0 + length ?ts \<le> len4 out_arr"
    using assms(14) by (simp only: sections_length add_0)
  from put_loop_invariant[OF assms(1,2) inr cap]
  obtain out where
    r: "put_loop img (int p0, int p1, int p2) (int s0, int s1, int s2) ?ts 0 out_arr
          = Inr (0 + length ?ts, out)"
    and keep: "len4 out = len4 out_arr" "dims4 out = dims4 out_arr"
    and new: "\<forall>j<length ?ts. \<forall>a<p0. \<forall>b<p1. \<forall>c<p2.
                 cell4 out (0 + j) a b c
                   = (case ?ts ! j of (ix, iy, iz) \<Rightarrow>
                        cell img (ix * s0 + a) (iy * s1 + b) (iz * s2 + c))"
    by blast
  have res: "put_patches_numba img patch_shape stride out_arr = Inr (m0 * m1 * m2, out)"
  proof -
    have "put_patches_numba img patch_shape stride out_arr
            = put_loop img patch_shape stride ?ts 0 out_arr"
      by (simp only: put_patches_numba_def ns sum.case)
    also have "\<dots> = Inr (0 + length ?ts, out)"
      unfolding assms(3,4) by (rule r)
    also have "\<dots> = Inr (m0 * m1 * m2, out)"
      by (simp only: sections_length add_0)
    finally show ?thesis .
  qed
  have cells: "\<forall>ix<m0. \<forall>iy<m1. \<forall>iz<m2. \<forall>a<p0. \<forall>b<p1. \<forall>c<p2.
                 cell4 out ((ix * m1 + iy) * m2 + iz) a b c
                   = cell img (ix * s0 + a) (iy * s1 + b) (iz * s2 + c)"
  proof (intro allI impI)
    fix ix iy iz a b c
    assume i: "ix < m0" "iy < m1" "iz < m2" and abc: "a < p0" "b < p1" "c < p2"
    have "(ix * m1 + iy) * m2 + iz < m0 * (m1 * m2)"
      using nested_index[OF i(1) nested_index[OF i(2,3)]] by (simp add: algebra_simps)
    then have lt: "(ix * m1 + iy) * m2 + iz < length ?ts"
      by (simp only: sections_length mult.assoc)
    from new[rule_format, OF lt abc] show
      "cell4 out ((ix * m1 + iy) * m2 + iz) a b c
         = cell img (ix * s0 + a) (iy * s1 + b) (iz * s2 + c)"
      unfolding sections_nth[OF i] by simp
  qed
  from res keep cells show ?thesis by blast
qed

text \<open>
  C9. For an image of shape \<open>(n0, n1, n2)\<close>, a patch shape \<open>(p0, p1, p2)\<close> that does not
  exceed it on any axis, a positive stride \<open>(s0, s1, s2)\<close> and an \<open>out_arr\<close> allocated for
  patches of that shape, with room for all of them, \<open>put_patches_numba\<close> writes exactly
  \<open>m0 * m1 * m2\<close> patches, where \<open>m = (n - p) div s + 1\<close> on each axis. They are numbered in
  nested order, axis 0 outermost: patch \<open>(ix * m1 + iy) * m2 + iz\<close> is the sub-volume of the
  image that starts at \<open>(ix * s0, iy * s1, iz * s2)\<close>.
\<close>

theorem put_patches_numba_tiling:
  assumes "dims img = (n0, n1, n2)"
    and "dims4 out_arr = (p0, p1, p2)"
    and "patch_shape = (int p0, int p1, int p2)"
    and "stride = (int s0, int s1, int s2)"
    and "0 < s0" "0 < s1" "0 < s2"
    and "p0 \<le> n0" "p1 \<le> n1" "p2 \<le> n2"
    and "m0 = (n0 - p0) div s0 + 1" "m1 = (n1 - p1) div s1 + 1" "m2 = (n2 - p2) div s2 + 1"
    and "m0 * m1 * m2 \<le> len4 out_arr"
  shows "\<exists>out. put_patches_numba img patch_shape stride out_arr = Inr (m0 * m1 * m2, out)
           \<and> (\<forall>ix<m0. \<forall>iy<m1. \<forall>iz<m2. \<forall>a<p0. \<forall>b<p1. \<forall>c<p2.
                 cell4 out ((ix * m1 + iy) * m2 + iz) a b c
                   = cell img (ix * s0 + a) (iy * s1 + b) (iz * s2 + c))"
  using put_patches_numba_result [OF assms] by blast

theorem put_patches_numba_tiling_witness:
  "dims ex_img = (10, 10, 10) \<and> dims4 ex_out = (5, 5, 5)
   \<and> (0::nat) < 5 \<and> (5::nat) \<le> 10 \<and> (2::nat) = (10 - 5) div 5 + 1
   \<and> (2::nat) * 2 * 2 \<le> len4 ex_out
   \<and> (\<exists>out. put_patches_numba ex_img (5, 5, 5) (5, 5, 5) ex_out = Inr (8, out)
          \<and> cell4 out 7 1 2 3 = 678 \<and> cell4 out 2 4 0 0 = 450)"
proof -
  have h: "dims ex_img = (10, 10, 10)" "dims4 ex_out = (5, 5, 5)"
    "(5, 5, 5) = (int 5, int 5, int 5)" "(0::nat) < 5" "(5::nat) \<le> 10"
    "(2::nat) = (10 - 5) div 5 + 1" "(2::nat) * 2 * 2 \<le> len4 ex_out"
    by (simp_all add: ex_img_def ex_out_def)
  from put_patches_numba_tiling [OF h(1,2,3,3) h(4,4,4) h(5,5,5) h(6,6,6) h(7)]
  obtain out where
    r: "put_patches_numba ex_img (5, 5, 5) (5, 5, 5) ex_out = Inr (2 * 2 * 2, out)"
    and c: "\<forall>ix<2. \<forall>iy<2. \<forall>iz<2. \<forall>a<5. \<forall>b<5. \<forall>c<5.
                 cell4 out ((ix * 2 + iy) * 2 + iz) a b c
                   = cell ex_img (ix * 5 + a) (iy * 5 + b) (iz * 5 + c)"
    by blast
  have "cell4 out ((1 * 2 + 1) * 2 + 1) 1 2 3 = cell ex_img (1 * 5 + 1) (1 * 5 + 2) (1 * 5 + 3)"
    using c [rule_format, of 1 1 1 1 2 3] by simp
  moreover
  have "cell4 out ((0 * 2 + 1) * 2 + 0) 4 0 0 = cell ex_img (0 * 5 + 4) (1 * 5 + 0) (0 * 5 + 0)"
    using c [rule_format, of 0 1 0 4 0 0] by simp
  ultimately have v: "cell4 out 7 1 2 3 = 678" "cell4 out 2 4 0 0 = 450"
    by (simp_all add: ex_img_def)
  have "\<exists>out. put_patches_numba ex_img (5, 5, 5) (5, 5, 5) ex_out = Inr (8, out)
          \<and> cell4 out 7 1 2 3 = 678 \<and> cell4 out 2 4 0 0 = 450"
    using r v by (intro exI[of _ out]) simp
  then show ?thesis
    by (simp add: ex_img_def ex_out_def)
qed

section \<open>Assembling patches\<close>

lemma resolve_img: "resolve ''img'' = Inl (NameError ''img'')"
  by (simp add: resolve_def assemble_scope_def)

lemma assemble_loop_raises:
  "ts \<noteq> [] \<Longrightarrow> assemble_loop patches stride patch_shape ts ctr st = Inl (NameError ''img'')"
proof (cases ts)
  case Nil
  then show "ts \<noteq> [] \<Longrightarrow> ?thesis" by simp
next
  case (Cons t rest)
  obtain ix iy iz where "t = (ix, iy, iz)" by (cases t)
  moreover obtain out_arr w where "st = (out_arr, w)" by (cases st)
  ultimately show ?thesis using Cons by (simp add: resolve_img Let_def)
qed

lemma sections_nonempty:
  assumes "0 < m0" "0 < m1" "0 < m2"
  shows "sections (int m0, int m1, int m2) \<noteq> []"
proof -
  have "0 < length (sections (int m0, int m1, int m2))"
    unfolding sections_length using assms by simp
  then show ?thesis by blast
qed

lemma assemble_patches_raises:
  assumes "dims out_arr = (n0, n1, n2)" and "dims4 patches = (p0, p1, p2)"
    and "stride = (int s0, int s1, int s2)" and "0 < s0" "0 < s1" "0 < s2"
    and "p0 \<le> n0" "p1 \<le> n1" "p2 \<le> n2"
  shows "assemble_patches patches stride out_arr = Inl (NameError ''img'')"
proof -
  have ns: "num_sections (dims out_arr) (vec_of (\<lambda>ax. int (comp3 (dims4 patches) ax))) stride
          = Inr (int ((n0 - p0) div s0 + 1), int ((n1 - p1) div s1 + 1),
                  int ((n2 - p2) div s2 + 1))"
    unfolding assms(1,2,3) vec_of.simps comp3.simps
    by (rule num_sections_nat) (rule assms)+
  have ne: "sections (int ((n0 - p0) div s0 + 1), int ((n1 - p1) div s1 + 1),
                  int ((n2 - p2) div s2 + 1)) \<noteq> []"
    by (rule sections_nonempty) simp_all
  show ?thesis
    unfolding assemble_patches_def Let_def ns sum.case assemble_loop_raises [OF ne]
    by (rule refl)
qed

text \<open>
  C1. Tiling the 10 x 10 x 10 example image into eight patches of 5 x 5 x 5 with stride
  5 x 5 x 5 succeeds; assembling those patches with the same stride into a zero volume
  of the image's shape raises NameError and returns no volume.
\<close>

theorem assemble_patches_name_error:
  "\<exists>patches. put_patches_numba ex_img (5, 5, 5) (5, 5, 5) ex_out = Inr (8, patches)
      \<and> assemble_patches patches (5, 5, 5) (zeros_like ex_img) = Inl (NameError ''img'')"
proof -
  have h: "dims ex_img = (10, 10, 10)" "dims4 ex_out = (5, 5, 5)"
    "(5, 5, 5) = (int 5, int 5, int 5)" "(0::nat) < 5" "(5::nat) \<le> 10"
    "(2::nat) = (10 - 5) div 5 + 1" "(2::nat) * 2 * 2 \<le> len4 ex_out"
    by (simp_all add: ex_img_def ex_out_def)
  from put_patches_numba_result [OF h(1,2,3,3) h(4,4,4) h(5,5,5) h(6,6,6) h(7)]
  obtain patches where
    r: "put_patches_numba ex_img (5, 5, 5) (5, 5, 5) ex_out = Inr (2 * 2 * 2, patches)"
    and d: "dims4 patches = dims4 ex_out"
    by blast
  have z: "dims (zeros_like ex_img) = (10, 10, 10)" by (simp add: zeros_like_def ex_img_def)
  have "assemble_patches patches (5, 5, 5) (zeros_like ex_img) = Inl (NameError ''img'')"
    by (rule assemble_patches_raises [OF z _ h(3) h(4,4,4) h(5,5,5)]) (simp add: d h(2))
  with r show ?thesis by simp
qed

end
